theory Spec2Isabelle
  imports Main
begin

section \<open>JavaScript values and exceptions\<close>

text \<open>An \<open>Error\<close> object: it carries a message, a string.\<close>

record js_error =
  message :: string

text \<open>
  The value a rejected promise carries. JavaScript lets any value be thrown, so a rejection
  need not be an \<open>Error\<close>. Of an object only its \<open>message\<close> property matters here:
  \<open>ErrorObject\<close> is an object whose message is a string, \<open>OtherObject\<close> one whose
  message is absent or not a string.
\<close>

datatype js_value =
    Undefined
  | Null
  | Str string
  | Num int
  | ErrorObject js_error
  | OtherObject

datatype js_exception =
    NoDeployment string    \<comment> \<open>\<open>ethers.getContract\<close> rejects: nothing deployed under the name\<close>
  | ENOENT                 \<comment> \<open>\<open>fs.readFileSync\<close>: no such file\<close>
  | SyntaxError            \<comment> \<open>\<open>JSON.parse\<close>: the text is not JSON\<close>
  | TypeError              \<comment> \<open>a property read or a method call on a value that has none\<close>


section \<open>utils/verify: submitting a contract to the block explorer\<close>

text \<open>
  Strings are lists of characters; \<open>toLowerCase\<close> acts on the letters \<open>A\<close> to \<open>Z\<close>
  and leaves every other character as it is.
\<close>

datatype console_line = ConsoleLog string | ConsoleError js_value

definition lower_char :: "char \<Rightarrow> char" where
  "lower_char c =
     (if (65::nat) \<le> of_char c \<and> of_char c \<le> (90::nat)
      then char_of (of_char c + (32::nat)) else c)"

definition toLowerCase :: "string \<Rightarrow> string" where
  "toLowerCase s = map lower_char s"

text \<open>\<open>starts_with p s\<close>: the string \<open>s\<close> begins with \<open>p\<close>.\<close>

fun starts_with :: "string \<Rightarrow> string \<Rightarrow> bool" where
  "starts_with [] s = True"
| "starts_with (p # ps) [] = False"
| "starts_with (p # ps) (c # cs) = (p = c \<and> starts_with ps cs)"

text \<open>\<open>String.prototype.includes\<close>: \<open>sub\<close> occurs in \<open>s\<close> at some position.\<close>

fun includes_str :: "string \<Rightarrow> string \<Rightarrow> bool" where
  "includes_str [] sub = (sub = [])"
| "includes_str (c # cs) sub = (starts_with sub (c # cs) \<or> includes_str cs sub)"

text \<open>
  The expression \<open>e.message.toLowerCase()\<close> of the catch block. Reading a property of
  \<open>undefined\<close> or \<open>null\<close> throws a \<open>TypeError\<close>; the message of a primitive, or of an
  object without a string message, is not a string, and calling \<open>toLowerCase\<close> on it throws
  a \<open>TypeError\<close> too.
\<close>

definition message_toLowerCase :: "js_value \<Rightarrow> js_exception + string" where
  "message_toLowerCase e =
     (case e of
        ErrorObject err \<Rightarrow> Inr (toLowerCase (message err))
      | Undefined \<Rightarrow> Inl TypeError
      | Null \<Rightarrow> Inl TypeError
      | Str s \<Rightarrow> Inl TypeError
      | Num n \<Rightarrow> Inl TypeError
      | OtherObject \<Rightarrow> Inl TypeError)"

text \<open>
  \<open>verify\<close> of the source. The task runner \<open>run\<close> is outside the repository: it is a
  parameter, called with the task name and the two fields of the argument object, and it
  either resolves (\<open>Inr\<close>) or rejects with a value (\<open>Inl\<close>). The console is threaded
  through as the list of lines printed so far. The result is \<open>Inr ()\<close> when \<open>verify\<close>
  completes normally and \<open>Inl x\<close> when it rejects with the exception \<open>x\<close>: nothing
  catches what the catch block itself throws.
\<close>

definition verify ::
  "(string \<Rightarrow> string \<Rightarrow> 'arg list \<Rightarrow> js_value + unit) \<Rightarrow> string \<Rightarrow> 'arg list \<Rightarrow>
   console_line list \<Rightarrow> (js_exception + unit) \<times> console_line list" where
  "verify run contractAdress args console =
     (let console1 = console @ [ConsoleLog ''verifying contract'']
      in case run ''verify:verify'' contractAdress args of
           Inr u \<Rightarrow> (Inr (), console1)
         | Inl e \<Rightarrow>
             (case message_toLowerCase e of
                Inl x \<Rightarrow> (Inl x, console1)
              | Inr lowered \<Rightarrow>
                  (if includes_str lowered ''already verified''
                   then (Inr (), console1 @ [ConsoleLog ''contract already verified''])
                   else (Inr (), console1 @ [ConsoleError e]))))"

text \<open>A task runner that rejects with a given value, and one that resolves.\<close>

definition rejects_with :: "js_value \<Rightarrow> string \<Rightarrow> string \<Rightarrow> 'arg list \<Rightarrow> js_value + unit" where
  "rejects_with v task a xs = Inl v"

definition resolves :: "string \<Rightarrow> string \<Rightarrow> 'arg list \<Rightarrow> js_value + unit" where
  "resolves task a xs = Inr ()"

text \<open>
  Letter-casing, stated without \<open>toLowerCase\<close>: \<open>cased_as s t\<close> holds when \<open>s\<close> is \<open>t\<close>
  with some of its lower-case letters written in upper case.
\<close>

definition upper_char :: "char \<Rightarrow> char" where
  "upper_char c =
     (if (97::nat) \<le> of_char c \<and> of_char c \<le> (122::nat)
      then char_of (of_char c - (32::nat)) else c)"

fun cased_as :: "string \<Rightarrow> string \<Rightarrow> bool" where
  "cased_as [] [] = True"
| "cased_as (c # cs) (d # ds) = ((c = d \<or> c = upper_char d) \<and> cased_as cs ds)"
| "cased_as cs ds = False"


section \<open>deploy/99-update-front-end: publishing the address to the front end\<close>

text \<open>
  The address registry is the object parsed from \<open>contractAddresses.json\<close>: chain-id
  strings to lists of address strings. The script sees two files. The text of the address
  file is kept as what \<open>JSON.parse\<close> makes of it: the registry it denotes, or the text
  itself when it is not JSON. The text of the interface file is never read. The paths
  given to \<open>fs.writeFileSync\<close> are logged in the order of the calls.
\<close>

definition FRONT_END_ADDRESSES_FILE :: string where
  "FRONT_END_ADDRESSES_FILE = ''../lottery-nextjs/constants/contractAddresses.json''"

definition FRONT_END_ABI_FILE :: string where
  "FRONT_END_ABI_FILE = ''../lottery-nextjs/constants/abi.json''"

type_synonym registry = "string \<rightharpoonup> string list"

datatype addresses_text = Json registry | Invalid string

record front_end_files =
  contractAddresses_json :: "addresses_text option"
  abi_json :: "string option"
  writes :: "string list"

record contract =
  address :: string
  interface_json :: string

text \<open>
  The Hardhat runtime the script runs in: the deployments by name and the chain id of the
  network configuration, which a configuration may leave undefined.
\<close>

record hardhat =
  deployments :: "string \<rightharpoonup> contract"
  chainId :: "nat option"

definition getContract :: "hardhat \<Rightarrow> string \<Rightarrow> js_exception + contract" where
  "getContract hre name =
     (case deployments hre name of None \<Rightarrow> Inl (NoDeployment name) | Some c \<Rightarrow> Inr c)"

definition readFileSync_addresses :: "front_end_files \<Rightarrow> js_exception + addresses_text" where
  "readFileSync_addresses files =
     (case contractAddresses_json files of None \<Rightarrow> Inl ENOENT | Some t \<Rightarrow> Inr t)"

definition JSON_parse :: "addresses_text \<Rightarrow> js_exception + registry" where
  "JSON_parse t = (case t of Json r \<Rightarrow> Inr r | Invalid s \<Rightarrow> Inl SyntaxError)"

definition JSON_stringify :: "registry \<Rightarrow> addresses_text" where
  "JSON_stringify r = Json r"

definition writeFileSync_addresses :: "addresses_text \<Rightarrow> front_end_files \<Rightarrow> front_end_files" where
  "writeFileSync_addresses t files =
     files\<lparr>contractAddresses_json := Some t,
           writes := writes files @ [FRONT_END_ADDRESSES_FILE]\<rparr>"

definition writeFileSync_abi :: "string \<Rightarrow> front_end_files \<Rightarrow> front_end_files" where
  "writeFileSync_abi t files =
     files\<lparr>abi_json := Some t, writes := writes files @ [FRONT_END_ABI_FILE]\<rparr>"

text \<open>\<open>Number.prototype.toString\<close> on a natural number: its decimal digits.\<close>

definition digit_char :: "nat \<Rightarrow> char" where
  "digit_char d = ''0123456789'' ! d"

fun toString :: "nat \<Rightarrow> string" where
  "toString n = (if n < 10 then [digit_char n] else toString (n div 10) @ [digit_char (n mod 10)])"

declare toString.simps [simp del]

text \<open>\<open>Array.prototype.includes\<close> and \<open>Array.prototype.push\<close> on an array of strings.\<close>

definition includes_arr :: "string list \<Rightarrow> string \<Rightarrow> bool" where
  "includes_arr xs a = (a \<in> set xs)"

definition push :: "string list \<Rightarrow> string \<Rightarrow> string list" where
  "push xs a = xs @ [a]"

text \<open>
  \<open>updateContractAddresses\<close>. The result pairs the outcome (\<open>Inl\<close> the exception raised,
  \<open>Inr ()\<close> normal completion) with the files as they are when the function ends.
\<close>

definition updateContractAddresses ::
  "hardhat \<Rightarrow> front_end_files \<Rightarrow> (js_exception + unit) \<times> front_end_files" where
  "updateContractAddresses hre files =
     (case getContract hre ''Raffle'' of
        Inl e \<Rightarrow> (Inl e, files)
      | Inr raffle \<Rightarrow>
     (case readFileSync_addresses files of
        Inl e \<Rightarrow> (Inl e, files)
      | Inr text \<Rightarrow>
     (case JSON_parse text of
        Inl e \<Rightarrow> (Inl e, files)
      | Inr currentAddresses \<Rightarrow>
     (case chainId hre of
        None \<Rightarrow> (Inl TypeError, files)
      | Some n \<Rightarrow>
          (let chainId = toString n;
               currentAddresses' =
                 (case currentAddresses chainId of
                    Some xs \<Rightarrow>
                      (if \<not> includes_arr xs (address raffle)
                       then currentAddresses(chainId \<mapsto> push xs (address raffle))
                       else currentAddresses)
                  | None \<Rightarrow> currentAddresses(chainId \<mapsto> [address raffle]))
           in (Inr (), writeFileSync_addresses (JSON_stringify currentAddresses') files))))))"

definition updateAbi ::
  "hardhat \<Rightarrow> front_end_files \<Rightarrow> (js_exception + unit) \<times> front_end_files" where
  "updateAbi hre files =
     (case getContract hre ''Raffle'' of
        Inl e \<Rightarrow> (Inl e, files)
      | Inr raffle \<Rightarrow> (Inr (), writeFileSync_abi (interface_json raffle) files))"

text \<open>
  The exported deploy function. \<open>UPDATE_FRONT_END\<close> is an environment variable: undefined
  or a string, and a string is truthy unless it is empty. Neither call is awaited, so an
  exception of one does not stop the other; the two calls write different files, and the
  result is the files once both have settled.
\<close>

definition truthy :: "string option \<Rightarrow> bool" where
  "truthy v = (case v of None \<Rightarrow> False | Some s \<Rightarrow> s \<noteq> [])"

definition module_exports :: "string option \<Rightarrow> hardhat \<Rightarrow> front_end_files \<Rightarrow> front_end_files" where
  "module_exports UPDATE_FRONT_END hre files =
     (if truthy UPDATE_FRONT_END
      then snd (updateAbi hre (snd (updateContractAddresses hre files)))
      else files)"

text \<open>The registry the address file holds; the empty one when there is none to parse.\<close>

definition registry_of :: "front_end_files \<Rightarrow> registry" where
  "registry_of files =
     (case contractAddresses_json files of Some (Json r) \<Rightarrow> r | _ \<Rightarrow> Map.empty)"

text \<open>The list a registry holds for a chain id, empty when the key is absent.\<close>

definition addresses_of :: "registry \<Rightarrow> string \<Rightarrow> string list" where
  "addresses_of r k = (case r k of None \<Rightarrow> [] | Some xs \<Rightarrow> xs)"

text \<open>The no-duplicate invariant: no chain id's list holds an address twice.\<close>

definition no_duplicates :: "registry \<Rightarrow> bool" where
  "no_duplicates r = (\<forall>k xs. r k = Some xs \<longrightarrow> distinct xs)"

text \<open>A runtime and files to evaluate the script on.\<close>

definition sample_hre :: hardhat where
  "sample_hre = \<lparr>deployments = [''Raffle'' \<mapsto> \<lparr>address = ''0xA'', interface_json = ''[]''\<rparr>],
                  chainId = Some 31337\<rparr>"

definition sample_files :: "registry \<Rightarrow> front_end_files" where
  "sample_files r = \<lparr>contractAddresses_json = Some (Json r), abi_json = None, writes = []\<rparr>"


section \<open>The Raffle contract and the randomness-oracle mock, as the tests drive them\<close>

text \<open>
  The tests under \<open>test/\<close> call a contract and an oracle mock whose sources are not among
  the files of this development. Both are modelled from the specification. A block time is
  passed to every operation that reads it, and the random word of a fulfilment is a
  parameter; the only consumer of the oracle is the raffle.
\<close>

text \<open>
  Modelled from the spec: the two states of the Raffle contract (source missing), which its
  state getter reports as 0 and 1.
\<close>

datatype raffle_state = OPEN | CALCULATING

text \<open>
  Modelled from the spec: the named failure conditions of the contract and of the oracle
  mock (sources missing), with the chain's refusal of a payment the sender cannot cover and
  the failure of an arithmetic operation.
\<close>

datatype revert =
    Raffle__NotEnoughETHEntered
  | Raffle__NotOpen
  | Raffle__UpkeepNotNeeded
  | NonexistentRequest
  | InsufficientFunds
  | Panic

text \<open>
  Modelled from the spec: the state of the Raffle contract (its source is missing): the
  entry fee and interval it was configured with, the participants in order of entry, the
  open or calculating state, the stored timestamp and the most recent winner.
\<close>

record raffle_contract =
  entranceFee :: nat
  interval :: nat
  players :: "string list"
  raffleState :: raffle_state
  lastTimeStamp :: nat
  recentWinner :: "string option"

text \<open>
  Modelled from the spec: the state of the randomness-oracle mock (its source is missing):
  the id the next request gets and the ids of the requests issued and not yet fulfilled.
\<close>

record coordinator =
  nextRequestId :: nat
  outstanding :: "nat list"

text \<open>
  Modelled from the spec: the chain the tests run against: the contract, the balance it
  holds, the balances of the accounts and the oracle mock.
\<close>

record chain =
  Raffle :: raffle_contract
  raffleBalance :: nat
  accounts :: "string \<Rightarrow> nat"
  VRFCoordinatorV2Mock :: coordinator

text \<open>
  Modelled from the spec: construction of the Raffle contract (source missing) leaves it
  open, with the configured fee and interval, no participant, no funds, and no request
  issued by the oracle mock, whose request ids start at 1.
\<close>

definition deploy :: "nat \<Rightarrow> nat \<Rightarrow> nat \<Rightarrow> (string \<Rightarrow> nat) \<Rightarrow> chain" where
  "deploy fee intv t0 accts =
     \<lparr>Raffle = \<lparr>entranceFee = fee, interval = intv, players = [], raffleState = OPEN,
                lastTimeStamp = t0, recentWinner = None\<rparr>,
      raffleBalance = 0,
      accounts = accts,
      VRFCoordinatorV2Mock = \<lparr>nextRequestId = 1, outstanding = []\<rparr>\<rparr>"

text \<open>
  Modelled from the spec: \<open>enterRaffle\<close> of the Raffle contract (source missing). A payment
  below the entry fee fails with the not-enough-funds condition; an entry while the
  contract is calculating is rejected; an entry at or above the fee is recorded as the last
  participant and its payment goes from the sender to the contract. A sender cannot pay
  more than its account holds.
\<close>

definition enterRaffle :: "string \<Rightarrow> nat \<Rightarrow> chain \<Rightarrow> revert + chain" where
  "enterRaffle sender val c =
     (if accounts c sender < val then Inl InsufficientFunds
      else if val < entranceFee (Raffle c) then Inl Raffle__NotEnoughETHEntered
      else if raffleState (Raffle c) \<noteq> OPEN then Inl Raffle__NotOpen
      else Inr (c\<lparr>Raffle := (Raffle c)\<lparr>players := players (Raffle c) @ [sender]\<rparr>,
                  raffleBalance := raffleBalance c + val,
                  accounts := (accounts c)(sender := accounts c sender - val)\<rparr>))"

text \<open>
  Modelled from the spec: \<open>checkUpkeep\<close> of the Raffle contract (source missing):
  eligibility is the conjunction of four conditions: the time elapsed since the stored
  timestamp is at least the interval, the state is open, the balance is positive and there
  is a participant.
\<close>

definition checkUpkeep :: "nat \<Rightarrow> chain \<Rightarrow> bool" where
  "checkUpkeep now c =
     (let timePassed = (lastTimeStamp (Raffle c) \<le> now
                        \<and> interval (Raffle c) \<le> now - lastTimeStamp (Raffle c));
          isOpen = (raffleState (Raffle c) = OPEN);
          hasBalance = (0 < raffleBalance c);
          hasPlayers = (0 < length (players (Raffle c)))
      in timePassed \<and> isOpen \<and> hasBalance \<and> hasPlayers)"

text \<open>
  Modelled from the spec: the request operation of the oracle mock (source missing): it
  issues the next request id and keeps the request outstanding.
\<close>

definition requestRandomWords :: "coordinator \<Rightarrow> nat \<times> coordinator" where
  "requestRandomWords co =
     (nextRequestId co,
      co\<lparr>nextRequestId := Suc (nextRequestId co),
         outstanding := outstanding co @ [nextRequestId co]\<rparr>)"

text \<open>
  Modelled from the spec: \<open>performUpkeep\<close> of the Raffle contract (source missing): it
  fails with the upkeep-not-needed condition when eligibility is false; otherwise the state
  becomes calculating and the oracle mock is asked for randomness; the request id is
  returned.
\<close>

definition performUpkeep :: "nat \<Rightarrow> chain \<Rightarrow> revert + (nat \<times> chain)" where
  "performUpkeep now c =
     (if \<not> checkUpkeep now c then Inl Raffle__UpkeepNotNeeded
      else (let (requestId, co) = requestRandomWords (VRFCoordinatorV2Mock c)
            in Inr (requestId,
                    c\<lparr>Raffle := (Raffle c)\<lparr>raffleState := CALCULATING\<rparr>,
                      VRFCoordinatorV2Mock := co\<rparr>)))"

text \<open>
  Modelled from the spec: the fulfilment callback of the Raffle contract (source missing):
  it selects a winner among the participants by the random word, empties the participant
  list, returns the state to open, stores the block time as the timestamp and transfers the
  accumulated balance to the winner. Without a participant there is no winner to select.
\<close>

definition pickWinner :: "nat \<Rightarrow> nat \<Rightarrow> chain \<Rightarrow> revert + chain" where
  "pickWinner word now c =
     (if players (Raffle c) = [] then Inl Panic
      else (let winner = players (Raffle c) ! (word mod length (players (Raffle c)))
            in Inr (c\<lparr>Raffle := (Raffle c)\<lparr>players := [], raffleState := OPEN,
                                           lastTimeStamp := now, recentWinner := Some winner\<rparr>,
                      raffleBalance := 0,
                      accounts := (accounts c)(winner := accounts c winner + raffleBalance c)\<rparr>)))"

text \<open>
  Modelled from the spec: \<open>fulfillRandomWords\<close> of the oracle mock (source missing): a
  request id with no matching outstanding request fails with the nonexistent-request
  condition; otherwise the random word is delivered to the raffle and the request is no
  longer outstanding.
\<close>

definition fulfillRandomWords :: "nat \<Rightarrow> nat \<Rightarrow> nat \<Rightarrow> chain \<Rightarrow> revert + chain" where
  "fulfillRandomWords requestId word now c =
     (if requestId \<notin> set (outstanding (VRFCoordinatorV2Mock c)) then Inl NonexistentRequest
      else (case pickWinner word now c of
              Inl e \<Rightarrow> Inl e
            | Inr c' \<Rightarrow>
                Inr (c'\<lparr>VRFCoordinatorV2Mock := (VRFCoordinatorV2Mock c')
                          \<lparr>outstanding := removeAll requestId (outstanding (VRFCoordinatorV2Mock c'))\<rparr>\<rparr>)))"

text \<open>
  The entries of the tests: each account of a list in turn enters the raffle, paying
  exactly the entry fee.
\<close>

fun enterAll :: "string list \<Rightarrow> chain \<Rightarrow> revert + chain" where
  "enterAll [] c = Inr c"
| "enterAll (p # ps) c =
     (case enterRaffle p (entranceFee (Raffle c)) c of
        Inl e \<Rightarrow> Inl e
      | Inr c' \<Rightarrow> enterAll ps c')"

text \<open>A chain to evaluate the contract on: fee 10, interval 30, deployed at time 100.\<close>

definition sample_chain :: chain where
  "sample_chain = deploy 10 30 100 (\<lambda>a. 1000)"

definition sample_players :: "string list" where
  "sample_players = [''deployer'', ''player1'', ''player2'', ''player3'']"

definition sample_entered :: chain where
  "sample_entered =
     (case enterAll sample_players sample_chain of Inr c \<Rightarrow> c | Inl e \<Rightarrow> sample_chain)"

definition sample_requested :: chain where
  "sample_requested =
     (case performUpkeep 131 sample_entered of Inr (requestId, c) \<Rightarrow> c | Inl e \<Rightarrow> sample_entered)"






section \<open>Properties of verify\<close>

lemma starts_with_iff: "starts_with p s \<longleftrightarrow> (\<exists>r. s = p @ r)"
  by (induction p s rule: starts_with.induct) auto

lemma includes_str_iff: "includes_str s sub \<longleftrightarrow> (\<exists>pre post. s = pre @ sub @ post)"
proof (induction s)
  case Nil
  then show ?case by auto
next
  case (Cons c cs)
  show ?case
  proof
    assume "includes_str (c # cs) sub"
    then consider "starts_with sub (c # cs)" | "includes_str cs sub" by auto
    then show "\<exists>pre post. c # cs = pre @ sub @ post"
    proof cases
      case 1
      then obtain r where "c # cs = sub @ r" using starts_with_iff by blast
      then have "c # cs = [] @ sub @ r" by simp
      then show ?thesis by blast
    next
      case 2
      then obtain pre post where "cs = pre @ sub @ post" using Cons.IH by blast
      then have "c # cs = (c # pre) @ sub @ post" by simp
      then show ?thesis by blast
    qed
  next
    assume "\<exists>pre post. c # cs = pre @ sub @ post"
    then obtain pre post where eq: "c # cs = pre @ sub @ post" by blast
    show "includes_str (c # cs) sub"
    proof (cases pre)
      case Nil
      with eq have "starts_with sub (c # cs)" using starts_with_iff by auto
      then show ?thesis by simp
    next
      case (Cons p ps)
      with eq have "cs = ps @ sub @ post" by simp
      then have "includes_str cs sub" using Cons.IH by blast
      then show ?thesis by simp
    qed
  qed
qed

lemma lower_upper_char: "lower_char d = d \<Longrightarrow> lower_char (upper_char d) = d"
proof (cases "(97::nat) \<le> of_char d \<and> of_char d \<le> (122::nat)")
  case True
  define n where "n = (of_char d :: nat)"
  have n: "97 \<le> n" "n \<le> 122" using True by (simp_all add: n_def)
  have d: "d = char_of n" by (simp add: n_def)
  have u: "upper_char d = char_of (n - 32)"
    using True by (simp add: upper_char_def n_def)
  have "n - 32 < 256" using n by arith
  then have o: "(of_char (char_of (n - 32) :: char) :: nat) = n - 32"
    by simp
  have b: "65 \<le> n - 32" "n - 32 \<le> 90" using n by arith+
  have "lower_char (char_of (n - 32)) = char_of (n - 32 + 32)"
    unfolding lower_char_def o using b by simp
  also have "n - 32 + 32 = n" using n by arith
  finally show ?thesis using u d by simp
next
  case False
  assume "lower_char d = d"
  with False show ?thesis by (auto simp: upper_char_def)
qed

lemma toLowerCase_cased_as:
  "cased_as s t \<Longrightarrow> \<forall>d \<in> set t. lower_char d = d \<Longrightarrow> toLowerCase s = t"
  by (induction s t rule: cased_as.induct) (auto simp: toLowerCase_def lower_upper_char)

lemma already_verified_lower: "\<forall>d \<in> set ''already verified''. lower_char d = d"
  by (simp add: lower_char_def)

lemma toLowerCase_append: "toLowerCase (a @ b) = toLowerCase a @ toLowerCase b"
  by (simp add: toLowerCase_def)

text \<open>
  Claim C1, as amended. For every address and argument list, when the task runner resolves,
  or rejects with an error object (a value that carries a string message), \<open>verify\<close> does
  not raise: its outcome is \<open>Inr ()\<close>, the outcome after a successful verification, so a
  caller cannot tell such a failure from success. When the lower-cased message contains
  \<open>already verified\<close>, the console gets the already-verified notice; on every other such
  rejection it gets the error itself.
\<close>

theorem verify_never_raises:
  assumes "\<forall>v. run ''verify:verify'' a args = Inl v \<longrightarrow> (\<exists>e. v = ErrorObject e)"
  shows "fst (verify run a args con) = Inr ()
   \<and> (run' ''verify:verify'' a' args' = Inr ()
        \<longrightarrow> fst (verify run a args con) = fst (verify run' a' args' con'))
   \<and> (\<forall>e. run ''verify:verify'' a args = Inl (ErrorObject e)
          \<and> includes_str (toLowerCase (message e)) ''already verified''
        \<longrightarrow> snd (verify run a args con)
            = con @ [ConsoleLog ''verifying contract'', ConsoleLog ''contract already verified''])
   \<and> (\<forall>e. run ''verify:verify'' a args = Inl (ErrorObject e)
          \<and> \<not> includes_str (toLowerCase (message e)) ''already verified''
        \<longrightarrow> snd (verify run a args con)
            = con @ [ConsoleLog ''verifying contract'', ConsoleError (ErrorObject e)])"
proof -
  have ok: "fst (verify run a args con) = Inr ()"
  proof (cases "run ''verify:verify'' a args")
    case (Inl v)
    with assms obtain e where "v = ErrorObject e" by blast
    with Inl show ?thesis
      by (simp add: verify_def Let_def message_toLowerCase_def)
  next
    case (Inr u)
    then show ?thesis by (simp add: verify_def Let_def)
  qed
  have same: "fst (verify run' a' args' con') = Inr ()"
    if "run' ''verify:verify'' a' args' = Inr ()"
    using that by (simp add: verify_def Let_def)
  have yes: "snd (verify run a args con)
            = con @ [ConsoleLog ''verifying contract'', ConsoleLog ''contract already verified'']"
    if "run ''verify:verify'' a args = Inl (ErrorObject e)
          \<and> includes_str (toLowerCase (message e)) ''already verified''" for e
    using that by (simp add: verify_def Let_def message_toLowerCase_def)
  have no: "snd (verify run a args con)
            = con @ [ConsoleLog ''verifying contract'', ConsoleError (ErrorObject e)]"
    if "run ''verify:verify'' a args = Inl (ErrorObject e)
          \<and> \<not> includes_str (toLowerCase (message e)) ''already verified''" for e
    using that by (simp add: verify_def Let_def message_toLowerCase_def)
  show ?thesis
  proof (intro conjI allI impI)
    show "fst (verify run a args con) = Inr ()" by (rule ok)
    show "fst (verify run a args con) = fst (verify run' a' args' con')"
      if "run' ''verify:verify'' a' args' = Inr ()"
      using ok same [OF that] by simp
  qed (rule yes, assumption, rule no, assumption)
qed

theorem verify_never_raises_witness:
  "fst (verify (rejects_with (ErrorObject \<lparr>message = ''Contract source code Already Verified''\<rparr>))
          ''0xA'' [1::nat] [])
     = Inr ()
   \<and> snd (verify (rejects_with (ErrorObject \<lparr>message = ''Contract source code Already Verified''\<rparr>))
          ''0xA'' [1::nat] [])
     = [ConsoleLog ''verifying contract'', ConsoleLog ''contract already verified'']
   \<and> fst (verify (rejects_with (ErrorObject \<lparr>message = ''Invalid API Key''\<rparr>)) ''0xA'' [1::nat] [])
     = fst (verify resolves ''0xA'' [1::nat] [])
   \<and> snd (verify (rejects_with (ErrorObject \<lparr>message = ''Invalid API Key''\<rparr>)) ''0xA'' [1::nat] [])
     = [ConsoleLog ''verifying contract'', ConsoleError (ErrorObject \<lparr>message = ''Invalid API Key''\<rparr>)]"
proof -
  define yes where "yes = \<lparr>message = ''Contract source code Already Verified''\<rparr>"
  define no where "no = \<lparr>message = ''Invalid API Key''\<rparr>"
  have y: "includes_str (toLowerCase (message yes)) ''already verified''"
    unfolding yes_def by code_simp
  have n: "\<not> includes_str (toLowerCase (message no)) ''already verified''"
    unfolding no_def by code_simp
  have h: "\<forall>v. rejects_with (ErrorObject err) ''verify:verify'' ''0xA'' [1::nat] = Inl v
             \<longrightarrow> (\<exists>e. v = ErrorObject e)" for err
    by (simp add: rejects_with_def)
  have r: "rejects_with (ErrorObject err) ''verify:verify'' ''0xA'' [1::nat] = Inl (ErrorObject err)"
    for err
    by (simp add: rejects_with_def)
  have s: "resolves ''verify:verify'' ''0xA'' [1::nat] = Inr ()"
    by (simp add: resolves_def)
  note A = verify_never_raises
        [of "rejects_with (ErrorObject yes)" "''0xA''" "[1::nat]" "[]"
            resolves "''0xA''" "[1::nat]" "[]", OF h]
  note B = verify_never_raises
        [of "rejects_with (ErrorObject no)" "''0xA''" "[1::nat]" "[]"
            resolves "''0xA''" "[1::nat]" "[]", OF h]
  have 1: "fst (verify (rejects_with (ErrorObject yes)) ''0xA'' [1::nat] []) = Inr ()"
    using A by blast
  have 2: "snd (verify (rejects_with (ErrorObject yes)) ''0xA'' [1::nat] [])
           = [] @ [ConsoleLog ''verifying contract'', ConsoleLog ''contract already verified'']"
    using A r [of yes] y by blast
  have 3: "fst (verify (rejects_with (ErrorObject no)) ''0xA'' [1::nat] [])
           = fst (verify resolves ''0xA'' [1::nat] [])"
    using B s by blast
  have 4: "snd (verify (rejects_with (ErrorObject no)) ''0xA'' [1::nat] [])
           = [] @ [ConsoleLog ''verifying contract'', ConsoleError (ErrorObject no)]"
    using B r [of no] n by blast
  from 1 2 3 4 show ?thesis
    unfolding yes_def no_def by simp
qed

text \<open>
  Claim C1 as first stated fails when the task runner rejects with a value that carries no
  string message, here a thrown string and \<open>undefined\<close>: the catch block reads the message
  and lower-cases it, that raises a \<open>TypeError\<close>, and \<open>verify\<close> rejects with it after the
  first console line.
\<close>

theorem verify_raises_counterexample:
  "verify (rejects_with (Str ''socket hang up'')) ''0xA'' [1::nat] []
     = (Inl TypeError, [ConsoleLog ''verifying contract''])
   \<and> verify (rejects_with Undefined) ''0xA'' [1::nat] []
     = (Inl TypeError, [ConsoleLog ''verifying contract''])"
  by (simp add: verify_def rejects_with_def message_toLowerCase_def)

text \<open>
  Claim C8. The already-verified match is case-insensitive: when the message of the error
  contains \<open>already verified\<close> in any letter-casing, \<open>verify\<close> takes the already-verified
  branch and not the error-logging one.
\<close>

theorem verify_match_case_insensitive:
  assumes "run ''verify:verify'' a args = Inl (ErrorObject e)"
    and "message e = pre @ mid @ post"
    and "cased_as mid ''already verified''"
  shows "verify run a args con
         = (Inr (), con @ [ConsoleLog ''verifying contract'', ConsoleLog ''contract already verified''])"
proof -
  have "toLowerCase mid = ''already verified''"
    using assms(3) already_verified_lower by (rule toLowerCase_cased_as)
  then have "toLowerCase (message e) = toLowerCase pre @ ''already verified'' @ toLowerCase post"
    using assms(2) by (simp add: toLowerCase_append)
  then have "includes_str (toLowerCase (message e)) ''already verified''"
    unfolding includes_str_iff by blast
  with assms(1) show ?thesis
    by (simp add: verify_def Let_def message_toLowerCase_def)
qed

theorem verify_match_case_insensitive_witness:
  "verify (rejects_with (ErrorObject \<lparr>message = ''Contract Already Verified!''\<rparr>)) ''0xA'' [1::nat] []
   = (Inr (), [ConsoleLog ''verifying contract'', ConsoleLog ''contract already verified''])"
proof -
  have c: "cased_as ''Already Verified'' ''already verified''"
    by code_simp
  have m: "message \<lparr>message = ''Contract Already Verified!''\<rparr>
           = ''Contract '' @ ''Already Verified'' @ ''!''"
    by simp
  have r: "rejects_with (ErrorObject \<lparr>message = ''Contract Already Verified!''\<rparr>)
             ''verify:verify'' ''0xA'' [1::nat]
           = Inl (ErrorObject \<lparr>message = ''Contract Already Verified!''\<rparr>)"
    by (simp add: rejects_with_def)
  show ?thesis
    using verify_match_case_insensitive
      [of "rejects_with (ErrorObject \<lparr>message = ''Contract Already Verified!''\<rparr>)" "''0xA''"
          "[1::nat]" "\<lparr>message = ''Contract Already Verified!''\<rparr>" "''Contract ''"
          "''Already Verified''" "''!''" "[]", OF r m c]
    by simp
qed

section \<open>Properties of the address update\<close>

lemma updateContractAddresses_success:
  assumes "deployments hre ''Raffle'' = Some deployed"
    and "contractAddresses_json files = Some (Json reg)"
    and "chainId hre = Some n"
  shows "updateContractAddresses hre files =
           (Inr (), files\<lparr>contractAddresses_json := Some (Json
              (case reg (toString n) of
                 Some xs \<Rightarrow> if address deployed \<in> set xs then reg
                            else reg(toString n \<mapsto> xs @ [address deployed])
               | None \<Rightarrow> reg(toString n \<mapsto> [address deployed]))),
              writes := writes files @ [FRONT_END_ADDRESSES_FILE]\<rparr>)"
  using assms
  by (simp add: updateContractAddresses_def getContract_def readFileSync_addresses_def
      JSON_parse_def JSON_stringify_def writeFileSync_addresses_def includes_arr_def push_def
      Let_def split: option.splits)

lemma updateContractAddresses_failure:
  assumes "fst (updateContractAddresses hre files) \<noteq> Inr ()"
  shows "snd (updateContractAddresses hre files) = files"
  using assms
  by (auto simp: updateContractAddresses_def Let_def split: sum.splits option.splits)

lemma updateContractAddresses_cases:
  obtains (fail) e where "updateContractAddresses hre files = (Inl e, files)"
  | (ok) deployed reg n where "deployments hre ''Raffle'' = Some deployed"
      "contractAddresses_json files = Some (Json reg)" "chainId hre = Some n"
proof (cases "fst (updateContractAddresses hre files)")
  case (Inl e)
  then have "snd (updateContractAddresses hre files) = files"
    by (simp add: updateContractAddresses_failure)
  with Inl have "updateContractAddresses hre files = (Inl e, files)"
    by (metis prod.collapse)
  then show ?thesis by (rule fail)
next
  case (Inr u)
  then obtain deployed reg n where "deployments hre ''Raffle'' = Some deployed"
      "contractAddresses_json files = Some (Json reg)" "chainId hre = Some n"
    by (auto simp: updateContractAddresses_def getContract_def readFileSync_addresses_def
      JSON_parse_def Let_def split: sum.splits option.splits addresses_text.splits)
  then show ?thesis by (rule ok)
qed

text \<open>
  Claim C2. With the contract deployed, the address file holding a registry and the chain
  id defined, \<open>updateContractAddresses\<close> completes and writes the address file back in
  every case: one more call to \<open>fs.writeFileSync\<close>, on the address file. The registry written is: when the chain-id key is absent, the prior registry
  with the key mapped to the one-element list of the deployed address; when the key is
  present and the address is not in its list, the prior registry with the address appended
  to that list; when the address is in the list, the prior registry.
\<close>

theorem updateContractAddresses_result:
  assumes "deployments hre ''Raffle'' = Some deployed"
    and "contractAddresses_json files = Some (Json reg)"
    and "chainId hre = Some n"
  shows "\<exists>reg'. updateContractAddresses hre files
                  = (Inr (), files\<lparr>contractAddresses_json := Some (Json reg'),
                                   writes := writes files @ [FRONT_END_ADDRESSES_FILE]\<rparr>)
          \<and> (reg (toString n) = None \<longrightarrow> reg' = reg(toString n \<mapsto> [address deployed]))
          \<and> (\<forall>xs. reg (toString n) = Some xs \<and> address deployed \<notin> set xs
                 \<longrightarrow> reg' = reg(toString n \<mapsto> xs @ [address deployed]))
          \<and> (\<forall>xs. reg (toString n) = Some xs \<and> address deployed \<in> set xs \<longrightarrow> reg' = reg)"
  using updateContractAddresses_success [OF assms]
  by (cases "reg (toString n)") auto


lemma toString_31337: "toString 31337 = ''31337''"
  by (simp add: toString.simps digit_char_def)

theorem updateContractAddresses_result_witness:
  "updateContractAddresses sample_hre (sample_files Map.empty)
     = (Inr (), (sample_files [''31337'' \<mapsto> [''0xA'']])\<lparr>writes := [FRONT_END_ADDRESSES_FILE]\<rparr>)
   \<and> updateContractAddresses sample_hre (sample_files [''31337'' \<mapsto> [''0xB'']])
     = (Inr (), (sample_files [''31337'' \<mapsto> [''0xB'', ''0xA'']])\<lparr>writes := [FRONT_END_ADDRESSES_FILE]\<rparr>)
   \<and> updateContractAddresses sample_hre (sample_files [''31337'' \<mapsto> [''0xA'', ''0xB'']])
     = (Inr (), (sample_files [''31337'' \<mapsto> [''0xA'', ''0xB'']])\<lparr>writes := [FRONT_END_ADDRESSES_FILE]\<rparr>)"
proof -
  have d: "deployments sample_hre ''Raffle'' = Some \<lparr>address = ''0xA'', interface_json = ''[]''\<rparr>"
    and c: "chainId sample_hre = Some 31337"
    by (simp_all add: sample_hre_def)
  have f: "contractAddresses_json (sample_files r) = Some (Json r)" for r
    by (simp add: sample_files_def)
  show ?thesis
    using updateContractAddresses_result [OF d f c, of Map.empty]
      updateContractAddresses_result [OF d f c, of "[''31337'' \<mapsto> [''0xB'']]"]
      updateContractAddresses_result [OF d f c, of "[''31337'' \<mapsto> [''0xA'', ''0xB'']]"]
    by (auto simp: toString_31337 sample_files_def)
qed

text \<open>
  Claim C3, as amended. Running \<open>updateContractAddresses\<close> twice in the same runtime is
  idempotent: the second run has the outcome of the first and leaves both files with the
  contents the first run left, so the registry is the result of running the update once.
  When the first run completes and the prior list of the chain id holds the deployed
  address at most once, the list after the second run holds it exactly once.
\<close>

theorem updateContractAddresses_twice:
  assumes "updateContractAddresses hre files = (r1, files1)"
    and "updateContractAddresses hre files1 = (r2, files2)"
  shows "r2 = r1
         \<and> contractAddresses_json files2 = contractAddresses_json files1
         \<and> abi_json files2 = abi_json files1
         \<and> (\<forall>n deployed. r1 = Inr () \<and> chainId hre = Some n
               \<and> deployments hre ''Raffle'' = Some deployed
               \<and> count_list (addresses_of (registry_of files) (toString n)) (address deployed) \<le> 1
             \<longrightarrow> count_list (addresses_of (registry_of files2) (toString n)) (address deployed) = 1)"
proof (cases rule: updateContractAddresses_cases [of hre files])
  case (fail e)
  from fail assms(1) have 1: "r1 = Inl e" "files1 = files" by simp_all
  from fail assms(2) 1(2) have 2: "r2 = Inl e" "files2 = files" by simp_all
  from 1 2 show ?thesis by simp
next
  case (ok deployed reg n)
  define k where "k = toString n"
  define a where "a = address deployed"
  define reg1 where "reg1 = (case reg k of
                 Some xs \<Rightarrow> if a \<in> set xs then reg else reg(k \<mapsto> xs @ [a])
               | None \<Rightarrow> reg(k \<mapsto> [a]))"
  have s1: "updateContractAddresses hre files
            = (Inr (), files\<lparr>contractAddresses_json := Some (Json reg1),
                             writes := writes files @ [FRONT_END_ADDRESSES_FILE]\<rparr>)"
    unfolding reg1_def k_def a_def by (rule updateContractAddresses_success [OF ok])
  have r1: "r1 = Inr ()"
    and files1: "files1 = files\<lparr>contractAddresses_json := Some (Json reg1),
                                 writes := writes files @ [FRONT_END_ADDRESSES_FILE]\<rparr>"
    using s1 assms(1) by simp_all
  have f1: "contractAddresses_json files1 = Some (Json reg1)"
    using files1 by simp
  have "\<exists>xs. reg1 k = Some xs \<and> a \<in> set xs"
    unfolding reg1_def by (cases "reg k") auto
  then obtain xs where xs: "reg1 k = Some xs" "a \<in> set xs"
    by blast
  have "updateContractAddresses hre files1
        = (Inr (), files1\<lparr>contractAddresses_json := Some (Json reg1),
                           writes := writes files1 @ [FRONT_END_ADDRESSES_FILE]\<rparr>)"
    using updateContractAddresses_success [OF ok(1) f1 ok(3)] xs
    by (simp add: k_def a_def)
  then have r2: "r2 = Inr ()"
    and files2: "files2 = files1\<lparr>contractAddresses_json := Some (Json reg1),
                                  writes := writes files1 @ [FRONT_END_ADDRESSES_FILE]\<rparr>"
    using assms(2) by simp_all
  have f2: "contractAddresses_json files2 = Some (Json reg1)" "abi_json files2 = abi_json files1"
    using files2 by simp_all
  have cnt: "count_list (addresses_of reg1 k) a = 1" if le: "count_list (addresses_of reg k) a \<le> 1"
  proof (cases "reg k")
    case None
    then show ?thesis by (simp add: addresses_of_def reg1_def)
  next
    case (Some ys)
    show ?thesis
    proof (cases "a \<in> set ys")
      case True
      then have "count_list ys a \<noteq> 0" by (simp add: count_list_0_iff)
      with le Some True show ?thesis by (simp add: addresses_of_def reg1_def)
    next
      case False
      then have "count_list ys a = 0" by (simp add: count_list_0_iff)
      with Some False show ?thesis by (simp add: addresses_of_def reg1_def)
    qed
  qed
  have reg0: "registry_of files = reg" using ok(2) by (simp add: registry_of_def)
  have reg2: "registry_of files2 = reg1" using f2(1) by (simp add: registry_of_def)
  show ?thesis
  proof (intro conjI allI impI)
    show "r2 = r1" using r1 r2 by simp
    show "contractAddresses_json files2 = contractAddresses_json files1"
      using f1 f2(1) by simp
    show "abi_json files2 = abi_json files1" by (rule f2(2))
  next
    fix n' deployed'
    assume h: "r1 = Inr () \<and> chainId hre = Some n' \<and> deployments hre ''Raffle'' = Some deployed'
       \<and> count_list (addresses_of (registry_of files) (toString n')) (address deployed') \<le> 1"
    with ok have "n' = n" "deployed' = deployed" by simp_all
    with h have "count_list (addresses_of reg k) a \<le> 1"
      by (simp add: reg0 k_def a_def)
    then have "count_list (addresses_of reg1 k) a = 1" by (rule cnt)
    then show "count_list (addresses_of (registry_of files2) (toString n')) (address deployed') = 1"
      using \<open>n' = n\<close> \<open>deployed' = deployed\<close> by (simp add: reg2 k_def a_def)
  qed
qed

theorem updateContractAddresses_twice_witness:
  "updateContractAddresses sample_hre (sample_files [''31337'' \<mapsto> [''0xB'']])
     = (Inr (), (sample_files [''31337'' \<mapsto> [''0xB'', ''0xA'']])\<lparr>writes := [FRONT_END_ADDRESSES_FILE]\<rparr>)
   \<and> fst (updateContractAddresses sample_hre
        ((sample_files [''31337'' \<mapsto> [''0xB'', ''0xA'']])\<lparr>writes := [FRONT_END_ADDRESSES_FILE]\<rparr>))
     = Inr ()
   \<and> registry_of (snd (updateContractAddresses sample_hre
        ((sample_files [''31337'' \<mapsto> [''0xB'', ''0xA'']])\<lparr>writes := [FRONT_END_ADDRESSES_FILE]\<rparr>)))
     = [''31337'' \<mapsto> [''0xB'', ''0xA'']]
   \<and> count_list (addresses_of (registry_of (snd (updateContractAddresses sample_hre
        ((sample_files [''31337'' \<mapsto> [''0xB'', ''0xA'']])\<lparr>writes := [FRONT_END_ADDRESSES_FILE]\<rparr>))))
        ''31337'') ''0xA'' = 1"
proof -
  have d: "deployments sample_hre ''Raffle'' = Some \<lparr>address = ''0xA'', interface_json = ''[]''\<rparr>"
    and c: "chainId sample_hre = Some 31337"
    by (simp_all add: sample_hre_def)
  have f: "contractAddresses_json (sample_files r) = Some (Json r)" for r
    by (simp add: sample_files_def)
  define files1 where
    "files1 = (sample_files [''31337'' \<mapsto> [''0xB'', ''0xA'']])\<lparr>writes := [FRONT_END_ADDRESSES_FILE]\<rparr>"
  have 1: "updateContractAddresses sample_hre (sample_files [''31337'' \<mapsto> [''0xB'']])
     = (Inr (), files1)"
    using updateContractAddresses_success [OF d f c, of "[''31337'' \<mapsto> [''0xB'']]"]
    by (simp add: toString_31337 sample_files_def files1_def)
  have 2: "updateContractAddresses sample_hre files1
     = (fst (updateContractAddresses sample_hre files1),
        snd (updateContractAddresses sample_hre files1))"
    by simp
  have 0: "count_list (addresses_of (registry_of (sample_files [''31337'' \<mapsto> [''0xB'']])) (toString 31337))
             (address \<lparr>address = ''0xA'', interface_json = ''[]''\<rparr>) \<le> 1"
    by (simp add: toString_31337 sample_files_def registry_of_def addresses_of_def)
  have r1: "registry_of files1 = [''31337'' \<mapsto> [''0xB'', ''0xA'']]"
    by (simp add: files1_def registry_of_def sample_files_def)
  have "registry_of (snd (updateContractAddresses sample_hre files1)) = registry_of files1"
    using updateContractAddresses_twice [OF 1 2] by (simp add: registry_of_def)
  then show ?thesis
    using updateContractAddresses_twice [OF 1 2] 0 1 c d r1
    unfolding files1_def [symmetric]
    by (simp add: toString_31337)
qed

text \<open>
  Claim C3 as first stated fails on a prior registry whose list already holds the deployed
  address twice: both runs complete and leave the list as it is, so after the second run the
  list holds the address twice.
\<close>

theorem updateContractAddresses_twice_counterexample:
  "fst (updateContractAddresses sample_hre (sample_files [''31337'' \<mapsto> [''0xA'', ''0xA'']]))
     = Inr ()
   \<and> fst (updateContractAddresses sample_hre
        (snd (updateContractAddresses sample_hre (sample_files [''31337'' \<mapsto> [''0xA'', ''0xA'']]))))
     = Inr ()
   \<and> count_list (addresses_of
        (registry_of (snd (updateContractAddresses sample_hre
           (snd (updateContractAddresses sample_hre (sample_files [''31337'' \<mapsto> [''0xA'', ''0xA'']]))))))
        ''31337'') ''0xA'' = 2"
proof -
  have d: "deployments sample_hre ''Raffle'' = Some \<lparr>address = ''0xA'', interface_json = ''[]''\<rparr>"
    and c: "chainId sample_hre = Some 31337"
    by (simp_all add: sample_hre_def)
  define files1 where
    "files1 = (sample_files [''31337'' \<mapsto> [''0xA'', ''0xA'']])\<lparr>writes := [FRONT_END_ADDRESSES_FILE]\<rparr>"
  define files2 where
    "files2 = (sample_files [''31337'' \<mapsto> [''0xA'', ''0xA'']])
                \<lparr>writes := [FRONT_END_ADDRESSES_FILE, FRONT_END_ADDRESSES_FILE]\<rparr>"
  have f: "contractAddresses_json (sample_files r) = Some (Json r)" for r
    by (simp add: sample_files_def)
  have f1: "contractAddresses_json files1 = Some (Json [''31337'' \<mapsto> [''0xA'', ''0xA'']])"
    by (simp add: files1_def sample_files_def)
  have 1: "updateContractAddresses sample_hre (sample_files [''31337'' \<mapsto> [''0xA'', ''0xA'']])
     = (Inr (), files1)"
    using updateContractAddresses_success [OF d f c, of "[''31337'' \<mapsto> [''0xA'', ''0xA'']]"]
    by (simp add: toString_31337 sample_files_def files1_def)
  have 2: "updateContractAddresses sample_hre files1 = (Inr (), files2)"
    using updateContractAddresses_success [OF d f1 c]
    by (simp add: toString_31337 sample_files_def files1_def files2_def)
  show ?thesis
    unfolding 1 snd_conv fst_conv 2
    by (simp add: files2_def sample_files_def registry_of_def addresses_of_def)
qed

lemma no_duplicates_upd:
  "no_duplicates r \<Longrightarrow> distinct xs \<Longrightarrow> no_duplicates (r(k \<mapsto> xs))"
  by (simp add: no_duplicates_def)

text \<open>
  Claim C4. The no-duplicate invariant is preserved: when no chain id's list in the
  registry of the address file holds an address twice, the same is true of the registry
  after \<open>updateContractAddresses\<close>, in any runtime (any chain id, any deployed address).
\<close>

theorem updateContractAddresses_no_duplicates:
  assumes "no_duplicates (registry_of files)"
  shows "no_duplicates (registry_of (snd (updateContractAddresses hre files)))"
proof (cases rule: updateContractAddresses_cases [of hre files])
  case (fail e)
  with assms show ?thesis by simp
next
  case (ok deployed reg n)
  have reg: "no_duplicates reg"
    using assms ok(2) by (simp add: registry_of_def)
  show ?thesis
  proof (cases "reg (toString n)")
    case None
    then show ?thesis
      using updateContractAddresses_success [OF ok] reg
      by (simp add: registry_of_def no_duplicates_upd)
  next
    case (Some xs)
    then have "distinct xs" using reg by (simp add: no_duplicates_def)
    then show ?thesis
      using updateContractAddresses_success [OF ok] reg Some
      by (simp add: registry_of_def no_duplicates_upd)
  qed
qed

theorem updateContractAddresses_no_duplicates_witness:
  "no_duplicates (registry_of (sample_files [''31337'' \<mapsto> [''0xB''], ''5'' \<mapsto> [''0xA'']]))
   \<and> no_duplicates (registry_of (snd (updateContractAddresses sample_hre
         (sample_files [''31337'' \<mapsto> [''0xB''], ''5'' \<mapsto> [''0xA'']]))))
   \<and> registry_of (snd (updateContractAddresses sample_hre
         (sample_files [''31337'' \<mapsto> [''0xB''], ''5'' \<mapsto> [''0xA'']])))
       = [''31337'' \<mapsto> [''0xB'', ''0xA''], ''5'' \<mapsto> [''0xA'']]"
proof -
  have d: "deployments sample_hre ''Raffle'' = Some \<lparr>address = ''0xA'', interface_json = ''[]''\<rparr>"
    and c: "chainId sample_hre = Some 31337"
    by (simp_all add: sample_hre_def)
  have f: "contractAddresses_json (sample_files r) = Some (Json r)" for r
    by (simp add: sample_files_def)
  have 0: "no_duplicates (registry_of (sample_files [''31337'' \<mapsto> [''0xB''], ''5'' \<mapsto> [''0xA'']]))"
    by (simp add: registry_of_def sample_files_def no_duplicates_def)
  have 1: "registry_of (snd (updateContractAddresses sample_hre
         (sample_files [''31337'' \<mapsto> [''0xB''], ''5'' \<mapsto> [''0xA'']])))
       = [''31337'' \<mapsto> [''0xB'', ''0xA''], ''5'' \<mapsto> [''0xA'']]"
    using updateContractAddresses_success [OF d f c, of "[''31337'' \<mapsto> [''0xB''], ''5'' \<mapsto> [''0xA'']]"]
    by (auto simp add: toString_31337 sample_files_def registry_of_def)
  show ?thesis
    using updateContractAddresses_no_duplicates [OF 0, of sample_hre] 0 1 by simp
qed

text \<open>
  Claim C9. The update preserves the frame: every chain-id key other than the current one
  maps to what it mapped to before; the list of the current chain id is its previous list
  followed by nothing or by the deployed address alone, so every address that was present
  is still at its position; the interface file is untouched.
\<close>

theorem updateContractAddresses_frame:
  assumes "deployments hre ''Raffle'' = Some deployed"
    and "contractAddresses_json files = Some (Json reg)"
    and "chainId hre = Some n"
  shows "(\<forall>k. k \<noteq> toString n \<longrightarrow>
            registry_of (snd (updateContractAddresses hre files)) k = reg k)
       \<and> (\<exists>suffix. addresses_of (registry_of (snd (updateContractAddresses hre files))) (toString n)
                    = addresses_of reg (toString n) @ suffix
                  \<and> (suffix = [] \<or> suffix = [address deployed]))
       \<and> (\<forall>i < length (addresses_of reg (toString n)).
            addresses_of (registry_of (snd (updateContractAddresses hre files))) (toString n) ! i
            = addresses_of reg (toString n) ! i)
       \<and> abi_json (snd (updateContractAddresses hre files)) = abi_json files"
proof -
  define k where "k = toString n"
  define a where "a = address deployed"
  define reg1 where "reg1 = (case reg k of
                 Some xs \<Rightarrow> if a \<in> set xs then reg else reg(k \<mapsto> xs @ [a])
               | None \<Rightarrow> reg(k \<mapsto> [a]))"
  have s1: "updateContractAddresses hre files
            = (Inr (), files\<lparr>contractAddresses_json := Some (Json reg1),
                             writes := writes files @ [FRONT_END_ADDRESSES_FILE]\<rparr>)"
    unfolding reg1_def k_def a_def by (rule updateContractAddresses_success [OF assms])
  have r: "registry_of (snd (updateContractAddresses hre files)) = reg1"
    by (simp add: s1 registry_of_def)
  have other: "reg1 k' = reg k'" if "k' \<noteq> k" for k'
    using that unfolding reg1_def by (cases "reg k") auto
  have "addresses_of reg1 k = addresses_of reg k \<or> addresses_of reg1 k = addresses_of reg k @ [a]"
    unfolding reg1_def by (cases "reg k") (auto simp: addresses_of_def)
  then obtain suffix where suffix: "addresses_of reg1 k = addresses_of reg k @ suffix"
      "suffix = [] \<or> suffix = [a]"
    by auto
  have nth: "addresses_of reg1 k ! i = addresses_of reg k ! i" if "i < length (addresses_of reg k)" for i
    using that suffix(1) by (simp add: nth_append)
  have abi: "abi_json (snd (updateContractAddresses hre files)) = abi_json files"
    by (simp add: s1)
  show ?thesis
    unfolding r using other suffix nth abi unfolding k_def a_def
    by blast
qed


theorem updateContractAddresses_frame_witness:
  "registry_of (snd (updateContractAddresses sample_hre
      (sample_files [''31337'' \<mapsto> [''0xB''], ''5'' \<mapsto> [''0xC'']]))) ''5'' = Some [''0xC'']
   \<and> addresses_of (registry_of (snd (updateContractAddresses sample_hre
      (sample_files [''31337'' \<mapsto> [''0xB''], ''5'' \<mapsto> [''0xC'']])))) ''31337'' ! 0 = ''0xB''
   \<and> abi_json (snd (updateContractAddresses sample_hre
      (sample_files [''31337'' \<mapsto> [''0xB''], ''5'' \<mapsto> [''0xC'']]))) = None"
proof -
  have d: "deployments sample_hre ''Raffle'' = Some \<lparr>address = ''0xA'', interface_json = ''[]''\<rparr>"
    and c: "chainId sample_hre = Some 31337"
    by (simp_all add: sample_hre_def)
  have f: "contractAddresses_json (sample_files r) = Some (Json r)" for r
    by (simp add: sample_files_def)
  have a: "abi_json (sample_files r) = None" for r
    by (simp add: sample_files_def)
  show ?thesis
    using updateContractAddresses_frame
      [OF d f c, of "[''31337'' \<mapsto> [''0xB''], ''5'' \<mapsto> [''0xC'']]"]
    by (simp add: toString_31337 addresses_of_def a)
qed

text \<open>
  Claim C10. When the address file does not exist or does not hold JSON,
  \<open>updateContractAddresses\<close> raises and the files are as they were: nothing is written.
  With the contract deployed the exception is the one of the read (no such file) or of the
  parse. The deploy function as a whole never creates a missing address file.
\<close>

theorem updateContractAddresses_raises_before_write:
  assumes "contractAddresses_json files = None
           \<or> (\<exists>s. contractAddresses_json files = Some (Invalid s))"
  shows "(\<exists>e. fst (updateContractAddresses hre files) = Inl e)
       \<and> snd (updateContractAddresses hre files) = files
       \<and> (\<forall>deployed. deployments hre ''Raffle'' = Some deployed \<longrightarrow>
            fst (updateContractAddresses hre files)
            = Inl (if contractAddresses_json files = None then ENOENT else SyntaxError))
       \<and> (contractAddresses_json files = None \<longrightarrow>
            contractAddresses_json (module_exports UPDATE_FRONT_END hre files) = None)"
proof (cases rule: updateContractAddresses_cases [of hre files])
  case (fail e)
  have err: "fst (updateContractAddresses hre files)
            = Inl (if contractAddresses_json files = None then ENOENT else SyntaxError)"
    if "deployments hre ''Raffle'' = Some deployed" for deployed
    using that assms
    by (auto simp: updateContractAddresses_def getContract_def readFileSync_addresses_def
        JSON_parse_def)
  have abi: "contractAddresses_json (snd (updateAbi hre fs)) = contractAddresses_json fs" for fs
    by (simp add: updateAbi_def writeFileSync_abi_def split: sum.splits)
  have "contractAddresses_json (module_exports UPDATE_FRONT_END hre files)
        = contractAddresses_json files"
    by (simp add: module_exports_def abi fail)
  with fail err show ?thesis by simp
next
  case (ok deployed reg n)
  with assms show ?thesis by auto
qed

theorem updateContractAddresses_raises_before_write_witness:
  "updateContractAddresses sample_hre \<lparr>contractAddresses_json = None, abi_json = Some ''[]'', writes = []\<rparr>
     = (Inl ENOENT, \<lparr>contractAddresses_json = None, abi_json = Some ''[]'', writes = []\<rparr>)
   \<and> updateContractAddresses sample_hre
        \<lparr>contractAddresses_json = Some (Invalid ''{''), abi_json = Some ''[]'', writes = []\<rparr>
     = (Inl SyntaxError, \<lparr>contractAddresses_json = Some (Invalid ''{''), abi_json = Some ''[]'', writes = []\<rparr>)
   \<and> contractAddresses_json (module_exports (Some ''true'') sample_hre
        \<lparr>contractAddresses_json = None, abi_json = Some ''[]'', writes = []\<rparr>) = None"
proof -
  have d: "deployments sample_hre ''Raffle'' = Some \<lparr>address = ''0xA'', interface_json = ''[]''\<rparr>"
    by (simp add: sample_hre_def)
  have 1: "contractAddresses_json \<lparr>contractAddresses_json = None, abi_json = Some ''[]'', writes = []\<rparr> = None
      \<or> (\<exists>s. contractAddresses_json \<lparr>contractAddresses_json = None, abi_json = Some ''[]'', writes = []\<rparr>
               = Some (Invalid s))"
    by simp
  have 2: "contractAddresses_json \<lparr>contractAddresses_json = Some (Invalid ''{''), abi_json = Some ''[]'', writes = []\<rparr> = None
      \<or> (\<exists>s. contractAddresses_json \<lparr>contractAddresses_json = Some (Invalid ''{''), abi_json = Some ''[]'', writes = []\<rparr>
               = Some (Invalid s))"
    by simp
  show ?thesis
    using updateContractAddresses_raises_before_write [OF 1, of sample_hre "Some ''true''"]
      updateContractAddresses_raises_before_write [OF 2, of sample_hre "Some ''true''"] d
    by (simp add: prod_eq_iff)
qed

section \<open>Properties of the contract model\<close>

text \<open>
  Claim C5. Eligibility is true exactly when all four conditions hold: the time elapsed
  since the stored timestamp is at least the interval, the state is open, the balance is
  positive and there is a participant. It is false when any one of them fails.
\<close>

theorem checkUpkeep_iff:
  "(checkUpkeep now c \<longleftrightarrow>
      (lastTimeStamp (Raffle c) \<le> now \<and> interval (Raffle c) \<le> now - lastTimeStamp (Raffle c))
      \<and> raffleState (Raffle c) = OPEN
      \<and> 0 < raffleBalance c
      \<and> 0 < length (players (Raffle c)))
   \<and> (\<not> (lastTimeStamp (Raffle c) \<le> now \<and> interval (Raffle c) \<le> now - lastTimeStamp (Raffle c))
        \<longrightarrow> \<not> checkUpkeep now c)
   \<and> (raffleState (Raffle c) \<noteq> OPEN \<longrightarrow> \<not> checkUpkeep now c)
   \<and> (\<not> 0 < raffleBalance c \<longrightarrow> \<not> checkUpkeep now c)
   \<and> (\<not> 0 < length (players (Raffle c)) \<longrightarrow> \<not> checkUpkeep now c)"
  by (auto simp: checkUpkeep_def Let_def)

lemma sample_entered_eq:
  "enterAll sample_players sample_chain = Inr sample_entered"
  "sample_entered
   = sample_chain\<lparr>Raffle := (Raffle sample_chain)\<lparr>players := sample_players\<rparr>,
                  raffleBalance := 40,
                  accounts := (\<lambda>a. if a \<in> set sample_players then 990 else 1000)\<rparr>"
  by (auto simp: sample_entered_def sample_players_def sample_chain_def deploy_def enterRaffle_def)

lemma sample_requested_eq:
  "performUpkeep 131 sample_entered = Inr (1, sample_requested)"
  "sample_requested
   = sample_entered\<lparr>Raffle := (Raffle sample_entered)\<lparr>raffleState := CALCULATING\<rparr>,
                     VRFCoordinatorV2Mock := \<lparr>nextRequestId = 2, outstanding = [1]\<rparr>\<rparr>"
  by (simp_all add: sample_requested_def sample_entered_eq(2) sample_chain_def deploy_def
      performUpkeep_def checkUpkeep_def requestRandomWords_def sample_players_def)

theorem checkUpkeep_iff_witness:
  "\<not> checkUpkeep 131 sample_chain
   \<and> \<not> checkUpkeep 125 sample_entered
   \<and> checkUpkeep 131 sample_entered
   \<and> \<not> checkUpkeep 131 sample_requested"
  using checkUpkeep_iff [of 131 sample_chain] checkUpkeep_iff [of 125 sample_entered]
    checkUpkeep_iff [of 131 sample_entered] checkUpkeep_iff [of 131 sample_requested]
  by (simp add: sample_requested_eq(2) sample_entered_eq(2) sample_chain_def deploy_def
      sample_players_def)

lemma performUpkeep_Inr:
  assumes "performUpkeep now c = Inr (requestId, c1)"
  shows "checkUpkeep now c"
    and "requestId = nextRequestId (VRFCoordinatorV2Mock c)"
    and "c1 = c\<lparr>Raffle := (Raffle c)\<lparr>raffleState := CALCULATING\<rparr>,
               VRFCoordinatorV2Mock := (VRFCoordinatorV2Mock c)
                 \<lparr>nextRequestId := Suc (nextRequestId (VRFCoordinatorV2Mock c)),
                  outstanding := outstanding (VRFCoordinatorV2Mock c) @ [nextRequestId (VRFCoordinatorV2Mock c)]\<rparr>\<rparr>"
  using assms
  by (auto simp: performUpkeep_def requestRandomWords_def split: if_splits)

text \<open>
  Claim C6. A fulfilment for a request id with no matching outstanding request fails with
  the nonexistent-request condition: in every state of the chain; in particular for every id
  when no request has ever been issued, and for every id other than the issued one when one
  request has been issued.
\<close>

theorem fulfillRandomWords_nonexistent:
  "(requestId \<notin> set (outstanding (VRFCoordinatorV2Mock c))
      \<longrightarrow> fulfillRandomWords requestId word now c = Inl NonexistentRequest)
   \<and> fulfillRandomWords requestId word now (deploy fee intv t0 accts) = Inl NonexistentRequest
   \<and> (outstanding (VRFCoordinatorV2Mock c) = [] \<and> performUpkeep t1 c = Inr (issued, c1)
        \<and> requestId \<noteq> issued
      \<longrightarrow> fulfillRandomWords requestId word now c1 = Inl NonexistentRequest)"
proof (intro conjI impI)
  show "fulfillRandomWords requestId word now c = Inl NonexistentRequest"
    if "requestId \<notin> set (outstanding (VRFCoordinatorV2Mock c))"
    using that by (simp add: fulfillRandomWords_def)
  show "fulfillRandomWords requestId word now (deploy fee intv t0 accts) = Inl NonexistentRequest"
    by (simp add: fulfillRandomWords_def deploy_def)
  show "fulfillRandomWords requestId word now c1 = Inl NonexistentRequest"
    if h: "outstanding (VRFCoordinatorV2Mock c) = [] \<and> performUpkeep t1 c = Inr (issued, c1)
        \<and> requestId \<noteq> issued"
  proof -
    from h have "outstanding (VRFCoordinatorV2Mock c1) = [issued]"
      using performUpkeep_Inr(2,3) [of t1 c issued c1] by simp
    with h show ?thesis by (simp add: fulfillRandomWords_def)
  qed
qed

theorem fulfillRandomWords_nonexistent_witness:
  "fulfillRandomWords 0 7 131 sample_entered = Inl NonexistentRequest
   \<and> fulfillRandomWords 1 7 131 sample_entered = Inl NonexistentRequest
   \<and> fulfillRandomWords 0 7 131 sample_chain = Inl NonexistentRequest
   \<and> fulfillRandomWords 1 7 131 sample_chain = Inl NonexistentRequest
   \<and> fulfillRandomWords 0 7 132 sample_requested = Inl NonexistentRequest
   \<and> fulfillRandomWords 2 7 132 sample_requested = Inl NonexistentRequest"
proof -
  have e: "outstanding (VRFCoordinatorV2Mock sample_entered) = []"
    by (simp add: sample_entered_eq(2) sample_chain_def deploy_def)
  note u = sample_requested_eq(1)
  show ?thesis
    using fulfillRandomWords_nonexistent [of 0 sample_entered 7 131 10 30 100 "\<lambda>a. 1000" 131 1 sample_requested]
      fulfillRandomWords_nonexistent [of 1 sample_entered 7 131 10 30 100 "\<lambda>a. 1000" 131 1 sample_requested]
      fulfillRandomWords_nonexistent [of 0 sample_entered 7 132 10 30 100 "\<lambda>a. 1000" 131 1 sample_requested]
      fulfillRandomWords_nonexistent [of 2 sample_entered 7 132 10 30 100 "\<lambda>a. 1000" 131 1 sample_requested]
      e u
    by (simp add: sample_chain_def)
qed







end
